theory Spec2Isabelle
  imports Main "HOL-Library.AList" "HOL-Library.Sublist"
begin

section \<open>Post-trade profit attribution (worst\_performance.ipynb)\<close>

subsection \<open>Records of the exchange client\<close>

text \<open>
  The enums \<open>Side\<close>, \<open>TradeType\<close> and \<open>MarketResult\<close> are imported by the notebook
  from \<open>helpers.types\<close>. The notebook names the members \<open>Side.YES\<close>, \<open>Side.NO\<close>,
  \<open>TradeType.BUY\<close>, \<open>TradeType.SELL\<close>, \<open>MarketResult.YES\<close> and \<open>MarketResult.NO\<close>;
  every further member such an enum may have is covered by the \<open>other\<close> constructor,
  which the notebook's \<open>else\<close> branches receive.
\<close>

datatype Side = Side_YES | Side_NO | Side_other string

datatype TradeType = BUY | SELL | TradeType_other string

datatype MarketResult = MarketResult_YES | MarketResult_NO | MarketResult_other string

text \<open>
  A fill as the notebook reads it. \<open>created_time\<close> is a point in time; only its order
  is used (sorting, comparison with \<open>start\<close>), so it is an integer time stamp.
  Prices, counts and the profit figures are Python integers.
\<close>

record Fill =
  ticker :: string
  side :: Side
  action :: TradeType
  yes_price :: int
  no_price :: int
  count :: int
  created_time :: int
  is_taker :: bool

record Market =
  market_ticker :: string
  result :: MarketResult

subsection \<open>ProfitData and the fills loop\<close>

text \<open>
  \<^verbatim>\<open>
  @dataclass
  class ProfitData():
      positions: int = 0
      spent: int = 0
      made: int = 0
  pd = defaultdict(lambda: ProfitData())
  \<close>
\<close>

record ProfitData =
  positions :: int
  spent :: int
  made :: int

definition ProfitData_default :: ProfitData where
  "ProfitData_default = \<lparr>positions = 0, spent = 0, made = 0\<rparr>"

text \<open>
  \<open>pd\<close> is a \<open>defaultdict\<close>: a dictionary that keeps its keys in insertion order and
  creates \<open>ProfitData()\<close> for a key on its first access. It is an association list
  in insertion order; \<open>pd_get\<close> is the read \<open>pd[ticker]\<close> and \<open>AList.update\<close> the
  write back (in place for a known key, appended for a new one).
\<close>

type_synonym profit_dict = "(string \<times> ProfitData) list"

definition pd_get :: "profit_dict \<Rightarrow> string \<Rightarrow> ProfitData" where
  "pd_get pd t = (case map_of pd t of None \<Rightarrow> ProfitData_default | Some d \<Rightarrow> d)"

text \<open>
  The body of \<open>for fill in fills\<close>, on the entry of the fill's ticker:
  \<^verbatim>\<open>
  if (fill.side == Side.YES and fill.action == TradeType.BUY) or
     (fill.side == Side.NO and fill.action == TradeType.SELL):
      pd[fill.ticker].spent += (fill.yes_price) * (fill.count)
      if pd[fill.ticker].positions < 0:
          pd[fill.ticker].made += min(fill.count, abs(pd[fill.ticker].positions)) * 100
      pd[fill.ticker].positions += fill.count
  else:
      pd[fill.ticker].spent += (fill.no_price) * (fill.count)
      if pd[fill.ticker].positions > 0:
          pd[fill.ticker].made += min(fill.count, abs(pd[fill.ticker].positions)) * 100
      pd[fill.ticker].positions -= fill.count
  \<close>
  The \<open>print\<close> for taker fills changes no variable and is left out.
\<close>

definition buys_yes :: "Fill \<Rightarrow> bool" where
  "buys_yes fill \<longleftrightarrow>
     (side fill = Side_YES \<and> action fill = BUY) \<or> (side fill = Side_NO \<and> action fill = SELL)"

definition apply_fill :: "ProfitData \<Rightarrow> Fill \<Rightarrow> ProfitData" where
  "apply_fill d fill =
     (if buys_yes fill then
        let d1 = d\<lparr>spent := spent d + yes_price fill * count fill\<rparr>;
            d2 = (if positions d1 < 0
                  then d1\<lparr>made := made d1 + min (count fill) (abs (positions d1)) * 100\<rparr>
                  else d1)
        in d2\<lparr>positions := positions d2 + count fill\<rparr>
      else
        let d1 = d\<lparr>spent := spent d + no_price fill * count fill\<rparr>;
            d2 = (if positions d1 > 0
                  then d1\<lparr>made := made d1 + min (count fill) (abs (positions d1)) * 100\<rparr>
                  else d1)
        in d2\<lparr>positions := positions d2 - count fill\<rparr>)"

definition fill_step :: "profit_dict \<Rightarrow> Fill \<Rightarrow> profit_dict" where
  "fill_step pd fill =
     AList.update (ticker fill) (apply_fill (pd_get pd (ticker fill)) fill) pd"

text \<open>
  \<open>fills.sort(key=lambda x: x.created_time)\<close> is a stable sort by \<open>created_time\<close>, as
  \<open>sort_key\<close> is; the loop then runs over the sorted list from an empty \<open>pd\<close>.
\<close>

definition sorted_fills :: "Fill list \<Rightarrow> Fill list" where
  "sorted_fills fills = sort_key created_time fills"

definition process_fills :: "Fill list \<Rightarrow> profit_dict" where
  "process_fills fills = foldl fill_step [] fills"

text \<open>What one fill pays, and what it pays back when it closes an opposite position.\<close>

definition fill_cost :: "Fill \<Rightarrow> int" where
  "fill_cost fill = (if buys_yes fill then yes_price fill else no_price fill) * count fill"

definition offsets :: "ProfitData \<Rightarrow> Fill \<Rightarrow> bool" where
  "offsets d fill \<longleftrightarrow> (if buys_yes fill then positions d < 0 else positions d > 0)"

definition nonneg_fill :: "Fill \<Rightarrow> bool" where
  "nonneg_fill fill \<longleftrightarrow> 0 \<le> yes_price fill \<and> 0 \<le> no_price fill \<and> 0 \<le> count fill"

subsection \<open>The final-profit loop\<close>

text \<open>
  Everything the notebook can catch with \<open>except Exception\<close> is a \<open>py_error\<close>: an
  exception raised by the exchange client (of whatever class, with its message) and the
  built-in errors the notebook code itself can raise. What is not an \<open>Exception\<close> (a
  keyboard interrupt, the exit of the interpreter) ends the run of the cell and is not
  part of the model.
\<close>

datatype py_error =
    Exception string | IndexError | ValueError | TypeError | OSError | AttributeError string

text \<open>
  The trade records of \<open>get_trades\<close> are consumed by attribute name only (the notebook
  declares no class for them), so a trade is the dictionary of its attributes and
  reading a missing attribute raises \<open>AttributeError\<close>.
\<close>

datatype attr_value = Int_value int | Time_value int | Side_value Side | Str_value string

type_synonym py_object = "string \<rightharpoonup> attr_value"


text \<open>
  \<open>GetFillsRequest(min_ts=...)\<close> and \<open>GetFillsRequest(ticker=ticker)\<close>: a request with
  optional fields.
\<close>

record GetFillsRequest =
  req_ticker :: "string option"
  min_ts :: "int option"

text \<open>
  The exchange client \<open>e = ExchangeInterface(is_test_run=False)\<close> is not part of the
  notebooks; it is a parameter. A call either raises or returns its records. The loop
  below visits every ticker once (the keys of a dictionary are distinct), so each call
  is made at most once per run and an answer that depends on the request alone
  describes any run.
\<close>

record ExchangeInterface =
  get_market :: "string \<Rightarrow> py_error + Market"
  get_fills :: "GetFillsRequest \<Rightarrow> py_error + Fill list"
  get_trades :: "string \<Rightarrow> py_error + py_object list"

datatype exchange_call = Call_get_market string | Call_get_fills GetFillsRequest

definition fills_request :: "string \<Rightarrow> GetFillsRequest" where
  "fills_request t = \<lparr>req_ticker = Some t, min_ts = None\<rparr>"

text \<open>
  The settlement branch of the loop body (\<open>None\<close> is its \<open>continue\<close>):
  \<^verbatim>\<open>
  if m.result == MarketResult.NO:
      if data.positions < 0:
          profit += abs(data.positions) * 100
  elif m.result == MarketResult.YES:
      if data.positions > 0:
          profit += abs(data.positions) * 100
  else:
      # This market has not settled yet
      continue
  \<close>
\<close>

definition settle :: "MarketResult \<Rightarrow> ProfitData \<Rightarrow> int \<Rightarrow> int option" where
  "settle r data profit =
     (if r = MarketResult_NO then
        Some (if positions data < 0 then profit + abs (positions data) * 100 else profit)
      else if r = MarketResult_YES then
        Some (if positions data > 0 then profit + abs (positions data) * 100 else profit)
      else None)"

text \<open>
  The loop body for one item of \<open>pd.items()\<close>, up to the assignment
  \<open>final_profit[ticker] = profit\<close>: the exchange calls it makes, in order, and the profit
  it reaches the assignment with (\<open>None\<close> when it leaves through a \<open>continue\<close>).
  \<^verbatim>\<open>
  profit = data.made - data.spent
  if data.positions != 0:
      try:
          m = e.get_market(ticker)
          fi = e.get_fills(GetFillsRequest(ticker=ticker))
      except Exception as ex:
          print(ex)
          continue
      fi.sort(key=lambda x: x.created_time)
      if len(fi) > 0 and fi[0].created_time < start:
          continue
      ... settlement branch ...
  final_profit[ticker] = profit
  \<close>
\<close>

definition ticker_profit ::
  "ExchangeInterface \<Rightarrow> int \<Rightarrow> string \<Rightarrow> ProfitData \<Rightarrow> exchange_call list \<times> int option" where
  "ticker_profit e start t data =
     (let profit = made data - spent data in
      if positions data \<noteq> 0 then
        (case get_market e t of
           Inl ex \<Rightarrow> ([Call_get_market t], None)
         | Inr m \<Rightarrow>
            (case get_fills e (fills_request t) of
               Inl ex \<Rightarrow> ([Call_get_market t, Call_get_fills (fills_request t)], None)
             | Inr fi0 \<Rightarrow>
                (let fi = sort_key created_time fi0 in
                 if (case fi of [] \<Rightarrow> False | f # _ \<Rightarrow> created_time f < start)
                 then ([Call_get_market t, Call_get_fills (fills_request t)], None)
                 else ([Call_get_market t, Call_get_fills (fills_request t)],
                       settle (result m) data profit))))
      else ([], Some profit))"

record profit_state =
  final_profit :: "string \<rightharpoonup> int"
  calls :: "exchange_call list"

definition final_profit_step ::
  "ExchangeInterface \<Rightarrow> int \<Rightarrow> profit_state \<Rightarrow> string \<times> ProfitData \<Rightarrow> profit_state" where
  "final_profit_step e start st item =
     (case ticker_profit e start (fst item) (snd item) of
        (cs, None) \<Rightarrow> st\<lparr>calls := calls st @ cs\<rparr>
      | (cs, Some profit) \<Rightarrow>
          st\<lparr>final_profit := (final_profit st)(fst item \<mapsto> profit), calls := calls st @ cs\<rparr>)"

definition final_profit_loop ::
  "ExchangeInterface \<Rightarrow> int \<Rightarrow> profit_dict \<Rightarrow> profit_state" where
  "final_profit_loop e start pd =
     foldl (final_profit_step e start) \<lparr>final_profit = Map.empty, calls = []\<rparr> pd"

text \<open>The ticker an exchange call is made for.\<close>

fun call_ticker :: "exchange_call \<Rightarrow> string option" where
  "call_ticker (Call_get_market t) = Some t"
| "call_ticker (Call_get_fills r) = req_ticker r"

text \<open>
  The three ways a ticker with open positions leaves the loop body without an entry, in
  the words of the description: an exchange call for it raised, its earliest fill lies
  before the start, its market has no YES or NO result.
\<close>

definition call_raised :: "ExchangeInterface \<Rightarrow> string \<Rightarrow> bool" where
  "call_raised e t \<longleftrightarrow>
     (case get_market e t of
        Inl ex \<Rightarrow> True
      | Inr m \<Rightarrow> (case get_fills e (fills_request t) of Inl ex \<Rightarrow> True | Inr fi \<Rightarrow> False))"

definition fills_before_start :: "ExchangeInterface \<Rightarrow> int \<Rightarrow> string \<Rightarrow> bool" where
  "fills_before_start e start t \<longleftrightarrow>
     (case get_fills e (fills_request t) of
        Inl ex \<Rightarrow> False
      | Inr fi \<Rightarrow> fi \<noteq> [] \<and> Min (created_time ` set fi) < start)"

definition not_settled :: "ExchangeInterface \<Rightarrow> string \<Rightarrow> bool" where
  "not_settled e t \<longleftrightarrow>
     (case get_market e t of
        Inl ex \<Rightarrow> False
      | Inr m \<Rightarrow> result m \<noteq> MarketResult_YES \<and> result m \<noteq> MarketResult_NO)"

definition wins :: "MarketResult \<Rightarrow> ProfitData \<Rightarrow> bool" where
  "wins r data \<longleftrightarrow>
     (r = MarketResult_NO \<and> positions data < 0) \<or> (r = MarketResult_YES \<and> positions data > 0)"

section \<open>Large-move plots (analyze\_non\_daily\_large\_move\_tickers.ipynb)\<close>











section \<open>Loading the credentials (load\_env\_vars\_from\_file)\<close>

text \<open>
  \<^verbatim>\<open>
  def load_env_vars_from_file(path: Path):
      file = path.read_text()
      for line in file.splitlines():
          if line.startswith("export"):
              var_to_value = line.split(" ")[1].split("=")
              var_ = var_to_value[0]
              value_ = var_to_value[1][1:-1]
              os.environ[var_] = value_
  \<close>
  A Python string is a list of characters, one \<open>char\<close> per code point (the credentials
  file is an ASCII shell script). The function is modelled on the list of lines that
  \<open>path.read_text().splitlines()\<close> yields and on \<open>os.environ\<close> as a map.
\<close>

definition startswith :: "string \<Rightarrow> string \<Rightarrow> bool" where
  "startswith s p \<longleftrightarrow> take (length p) s = p"

text \<open>\<open>s.split(sep)\<close> for a separator of one character: every occurrence splits.\<close>

fun split :: "char \<Rightarrow> string \<Rightarrow> string list" where
  "split sep [] = [] # []"
| "split sep (c # cs) =
     (if c = sep then [] # split sep cs
      else (case split sep cs of [] \<Rightarrow> [c] # [] | w # ws \<Rightarrow> (c # w) # ws))"

text \<open>\<open>xs[i]\<close> for \<open>i \<ge> 0\<close> raises \<open>IndexError\<close> out of range.\<close>

definition index :: "'a list \<Rightarrow> nat \<Rightarrow> py_error + 'a" where
  "index xs i = (if i < length xs then Inr (xs ! i) else Inl IndexError)"

text \<open>\<open>s[1:-1]\<close>: without the first and the last character; empty for a shorter string.\<close>

definition slice_1_to_last :: "string \<Rightarrow> string" where
  "slice_1_to_last s = butlast (tl s)"

type_synonym environ = "string \<rightharpoonup> string"

text \<open>
  \<open>os.environ[var_] = value_\<close> (Python 3.11 on POSIX) raises \<open>ValueError\<close> for a name or
  value with a NUL character and for a name with \<open>=\<close> in it (which \<open>split\<close> excludes
  here), and \<open>OSError\<close> (invalid argument) for an empty name.
\<close>

definition environ_setitem :: "environ \<Rightarrow> string \<Rightarrow> string \<Rightarrow> py_error + environ" where
  "environ_setitem env var v =
     (if CHR 0x00 \<in> set var \<or> CHR 0x00 \<in> set v \<or> CHR ''='' \<in> set var then Inl ValueError
      else if var = [] then Inl OSError
      else Inr (env(var \<mapsto> v)))"

definition load_line :: "environ \<Rightarrow> string \<Rightarrow> py_error + environ" where
  "load_line env line =
     (if startswith line ''export'' then
        (case index (split CHR '' '' line) 1 of
           Inl err \<Rightarrow> Inl err
         | Inr tok \<Rightarrow>
            (let var_to_value = split CHR ''='' tok in
             (case index var_to_value 0 of
                Inl err \<Rightarrow> Inl err
              | Inr var \<Rightarrow>
                 (case index var_to_value 1 of
                    Inl err \<Rightarrow> Inl err
                  | Inr v \<Rightarrow> environ_setitem env var (slice_1_to_last v)))))
      else Inr env)"

fun load_env_vars_from_file :: "environ \<Rightarrow> string list \<Rightarrow> py_error + environ" where
  "load_env_vars_from_file env [] = Inr env"
| "load_env_vars_from_file env (line # rest) =
     (case load_line env line of
        Inl err \<Rightarrow> Inl err
      | Inr env' \<Rightarrow> load_env_vars_from_file env' rest)"

text \<open>
  The description of the loader, in its own words: on a line that starts with
  \<open>export\<close>, the variable named left of \<open>=\<close> (after \<open>export\<close> and a space) is set to
  the text right of \<open>=\<close> without its first and last character; any other line changes
  nothing.
\<close>

definition left_of_equals :: "string \<Rightarrow> string" where
  "left_of_equals line = takeWhile (\<lambda>c. c \<noteq> CHR ''='') (drop (length ''export '') line)"

definition right_of_equals :: "string \<Rightarrow> string" where
  "right_of_equals line = tl (dropWhile (\<lambda>c. c \<noteq> CHR ''='') line)"

definition described_line :: "environ \<Rightarrow> string \<Rightarrow> environ" where
  "described_line env line =
     (if startswith line ''export''
      then env(left_of_equals line \<mapsto> butlast (tl (right_of_equals line)))
      else env)"

text \<open>
  A line \<open>export NAME=VALUE\<close>: one space after \<open>export\<close>, a nonempty name, exactly one
  \<open>=\<close>, and no further space and no NUL character.
\<close>

definition plain_export_line :: "string \<Rightarrow> bool" where
  "plain_export_line line \<longleftrightarrow>
     startswith line ''export '' \<and>
     (let rest = drop (length ''export '') line in
        CHR '' '' \<notin> set rest \<and> CHR 0x00 \<notin> set rest \<and>
        length (filter (\<lambda>c. c = CHR ''='') rest) = 1 \<and>
        take 1 rest \<noteq> ''='')"

section \<open>The features\_raw bucket policies (Terraform)\<close>

text \<open>
  \<^verbatim>\<open>
  resource "aws_iam_policy" "features_raw_source_rw" {
    for_each = toset([ "cole", "test", "databento" ])
    name        = "features_raw_${local.env}_${each.key}_rw"
    path        = "/"
    description = "Read and write to the raw ${local.env} ${each.key} features."
    policy = jsonencode({
      Version = "2012-10-17"
      Statement = [
        { Action = [ "s3:PutObject", "s3:GetObject", "s3:ListBucket", "s3:DeleteObject", ]
          Effect   = "Allow"
          Resource = "${aws_s3_bucket.features_raw.arn}/${each.key}/*" }, ]
    })
  }
  \<close>
  \<open>for_each\<close> over a set of strings declares one resource instance per element, keyed by
  the element. The ARN of the bucket is computed by the provider and is a parameter.
\<close>

record iam_statement =
  Action :: "string list"
  Effect :: string
  Resource :: string

record iam_policy_document =
  Version :: string
  Statement :: "iam_statement list"

record aws_iam_policy =
  name :: string
  path :: string
  description :: string
  policy :: iam_policy_document

definition local_env :: string where
  "local_env = ''prod''"

definition toset :: "string list \<Rightarrow> string set" where
  "toset xs = set xs"

definition features_raw_source_rw :: "string \<Rightarrow> string \<rightharpoonup> aws_iam_policy" where
  "features_raw_source_rw arn each_key =
     (if each_key \<in> toset [''cole'', ''test'', ''databento''] then
        Some \<lparr>name = ''features_raw_'' @ local_env @ ''_'' @ each_key @ ''_rw'',
              path = ''/'',
              description =
                ''Read and write to the raw '' @ local_env @ '' '' @ each_key @ '' features.'',
              policy =
                \<lparr>Version = ''2012-10-17'',
                 Statement =
                   [\<lparr>Action = [''s3:PutObject'', ''s3:GetObject'', ''s3:ListBucket'',
                                ''s3:DeleteObject''],
                     Effect = ''Allow'',
                     Resource = arn @ ''/'' @ each_key @ ''/*''\<rparr>]\<rparr>\<rparr>
      else None)"

text \<open>
  Which resource ARNs a \<open>Resource\<close> pattern of an IAM statement covers: \<open>*\<close> stands for
  any sequence of characters, \<open>?\<close> for any one character, every other character for
  itself.
\<close>

fun resource_matches :: "string \<Rightarrow> string \<Rightarrow> bool" where
  "resource_matches [] r = (r = [])"
| "resource_matches (p # ps) r =
     (if p = CHR ''*'' then
        resource_matches ps r \<or>
        (case r of [] \<Rightarrow> False | _ # r' \<Rightarrow> resource_matches (p # ps) r')
      else if p = CHR ''?'' then
        (case r of [] \<Rightarrow> False | _ # r' \<Rightarrow> resource_matches ps r')
      else
        (case r of [] \<Rightarrow> False | c # r' \<Rightarrow> c = p \<and> resource_matches ps r'))"

definition no_wildcard :: "string \<Rightarrow> bool" where
  "no_wildcard s \<longleftrightarrow> CHR ''*'' \<notin> set s \<and> CHR ''?'' \<notin> set s"

section \<open>Price-band cleaning cell (spy data)\<close>















section \<open>Example data\<close>

definition fills1 :: "Fill list" where
  "fills1 =
    [\<lparr>ticker = ''A'', side = Side_NO, action = BUY, yes_price = 60, no_price = 40, count = 2,
      created_time = 20, is_taker = False\<rparr>,
     \<lparr>ticker = ''A'', side = Side_YES, action = BUY, yes_price = 30, no_price = 70, count = 2,
      created_time = 10, is_taker = False\<rparr>,
     \<lparr>ticker = ''B'', side = Side_YES, action = SELL, yes_price = 55, no_price = 45, count = 1,
      created_time = 15, is_taker = True\<rparr>]"

definition trade1 :: py_object where
  "trade1 = [''created_time'' \<mapsto> Time_value 1728900000, ''yes_price'' \<mapsto> Int_value 42,
             ''count'' \<mapsto> Int_value 10, ''taker_side'' \<mapsto> Side_value Side_YES]"

text \<open>
  Modelled from the spec: the trade class of \<open>helpers.types\<close> is not among the sources.
  A trade record that carries the fields the description lists (\<open>created_time\<close>,
  \<open>yes_price\<close>, \<open>no_price\<close>, \<open>count\<close>, \<open>side\<close>, \<open>action\<close>, \<open>result\<close>) and no other.
\<close>

definition described_trade :: py_object where
  "described_trade =
     [''created_time'' \<mapsto> Time_value 1728900000, ''yes_price'' \<mapsto> Int_value 42,
      ''no_price'' \<mapsto> Int_value 58, ''count'' \<mapsto> Int_value 10,
      ''side'' \<mapsto> Side_value Side_YES, ''action'' \<mapsto> Str_value ''buy'',
      ''result'' \<mapsto> Str_value []]"


definition ex1 :: ExchangeInterface where
  "ex1 =
     \<lparr>get_market =
        (\<lambda>t. if t = ''B'' then Inl (Exception ''timeout'')
             else Inr \<lparr>market_ticker = t,
                       result = (if t = ''E'' then MarketResult_other [] else MarketResult_YES)\<rparr>),
      get_fills =
        (\<lambda>r. if req_ticker r = Some ''D''
             then Inr [\<lparr>ticker = ''D'', side = Side_YES, action = BUY, yes_price = 10,
                        no_price = 90, count = 1, created_time = - 5, is_taker = False\<rparr>]
             else Inr []),
      get_trades = (\<lambda>t. if t = ''A'' then Inr [trade1] else Inr [described_trade])\<rparr>"

definition pd1 :: profit_dict where
  "pd1 = [(''A'', \<lparr>positions = 2, spent = 90, made = 0\<rparr>),
          (''B'', \<lparr>positions = - 3, spent = 120, made = 100\<rparr>),
          (''C'', \<lparr>positions = 0, spent = 50, made = 100\<rparr>),
          (''D'', \<lparr>positions = 1, spent = 10, made = 0\<rparr>),
          (''E'', \<lparr>positions = 4, spent = 20, made = 0\<rparr>)]"

definition readme_lines :: "string list" where
  "readme_lines =
     [''#!/bin/sh'', [],
      ''export API_URL='https://demo-api.kalshi.co/trade-api'' @ [CHR 0x27],
      ''export API_VERSION='v2'' @ [CHR 0x27],
      ''export API_USERNAME='your-email@email.com'' @ [CHR 0x27],
      ''export API_PASSWORD='some-password'' @ [CHR 0x27]]"






section \<open>Properties of the fills loop\<close>

lemma pd_get_fill_step:
  "pd_get (fill_step pd fill) t =
     (if t = ticker fill then apply_fill (pd_get pd t) fill else pd_get pd t)"
  by (simp add: pd_get_def fill_step_def update_conv')

lemma keys_fill_step:
  "fst ` set (fill_step pd fill) = insert (ticker fill) (fst ` set pd)"
  by (simp add: fill_step_def dom_update)

lemma distinct_fill_step:
  "distinct (map fst pd) \<Longrightarrow> distinct (map fst (fill_step pd fill))"
  by (simp add: fill_step_def distinct_update)

lemma distinct_foldl_fill_step:
  "distinct (map fst pd) \<Longrightarrow> distinct (map fst (foldl fill_step pd fills))"
  by (induction fills arbitrary: pd) (simp_all add: distinct_fill_step)

lemma distinct_process_fills: "distinct (map fst (process_fills fills))"
  by (simp add: process_fills_def distinct_foldl_fill_step)

lemma spent_apply_fill: "spent (apply_fill d fill) = spent d + fill_cost fill"
  by (simp add: apply_fill_def fill_cost_def Let_def)

lemma made_apply_fill:
  "made (apply_fill d fill) =
     made d + (if offsets d fill then min (count fill) (abs (positions d)) * 100 else 0)"
  by (simp add: apply_fill_def offsets_def Let_def)

lemma positions_apply_fill:
  "positions (apply_fill d fill) =
     (if buys_yes fill then positions d + count fill else positions d - count fill)"
  by (simp add: apply_fill_def Let_def)

lemma fill_cost_nonneg: "nonneg_fill fill \<Longrightarrow> 0 \<le> fill_cost fill"
  by (simp add: fill_cost_def nonneg_fill_def)

lemma foldl_fill_step_snoc:
  "process_fills (fs @ [f]) = fill_step (process_fills fs) f"
  by (simp add: process_fills_def)

lemma process_fills_nonneg:
  "\<forall>f \<in> set fs. nonneg_fill f \<Longrightarrow>
     0 \<le> spent (pd_get (process_fills fs) t) \<and> 0 \<le> made (pd_get (process_fills fs) t)"
proof (induction fs rule: rev_induct)
  case Nil
  show ?case by (simp add: process_fills_def pd_get_def ProfitData_default_def)
next
  case (snoc f fs)
  then have IH: "0 \<le> spent (pd_get (process_fills fs) t)" "0 \<le> made (pd_get (process_fills fs) t)"
    and nn: "nonneg_fill f" by simp_all
  from nn have c: "0 \<le> fill_cost f" by (rule fill_cost_nonneg)
  from nn have m: "0 \<le> min (count f) (abs (positions (pd_get (process_fills fs) t))) * 100"
    by (simp add: nonneg_fill_def)
  show ?case
    using IH c m
    by (auto simp: foldl_fill_step_snoc pd_get_fill_step spent_apply_fill made_apply_fill)
qed

lemma take_Suc_sorted:
  "n < length fs \<Longrightarrow> process_fills (take (Suc n) fs) = fill_step (process_fills (take n fs)) (fs ! n)"
  by (simp add: take_Suc_conv_app_nth foldl_fill_step_snoc)

section \<open>Properties of the final-profit loop\<close>

lemma final_profit_step_fp:
  "final_profit (final_profit_step e start st (t, d)) =
     (case snd (ticker_profit e start t d) of
        None \<Rightarrow> final_profit st
      | Some p \<Rightarrow> (final_profit st)(t \<mapsto> p))"
  by (simp add: final_profit_step_def split: prod.split option.split)

lemma final_profit_step_calls:
  "calls (final_profit_step e start st (t, d)) = calls st @ fst (ticker_profit e start t d)"
  by (simp add: final_profit_step_def split: prod.split option.split)

lemma foldl_step_other:
  "t \<notin> fst ` set items \<Longrightarrow>
     final_profit (foldl (final_profit_step e start) st items) t = final_profit st t"
proof (induction items arbitrary: st)
  case Nil
  show ?case by simp
next
  case (Cons it items)
  obtain t' d' where it: "it = (t', d')" by (cases it)
  from Cons.prems it have ne: "t \<noteq> t'" and rest: "t \<notin> fst ` set items" by auto
  have "final_profit (final_profit_step e start st (t', d')) t = final_profit st t"
    using ne by (simp add: final_profit_step_fp split: option.split)
  with Cons.IH [OF rest] it show ?case by simp
qed

lemma foldl_step_entry:
  "distinct (map fst items) \<Longrightarrow> (t, d) \<in> set items \<Longrightarrow>
     final_profit (foldl (final_profit_step e start) st items) t =
       (case snd (ticker_profit e start t d) of None \<Rightarrow> final_profit st t | Some p \<Rightarrow> Some p)"
proof (induction items arbitrary: st)
  case Nil
  then show ?case by simp
next
  case (Cons it items)
  obtain t' d' where it: "it = (t', d')" by (cases it)
  show ?case
  proof (cases "(t, d) = it")
    case True
    from Cons.prems have "fst it \<notin> fst ` set items" by simp
    with True have nin: "t \<notin> fst ` set items" by (metis fst_conv)
    from True have eq: "it = (t, d)" by simp
    show ?thesis
      using foldl_step_other [OF nin, of e start "final_profit_step e start st (t, d)"]
      unfolding eq by (simp add: final_profit_step_fp split: option.split)
  next
    case False
    with Cons.prems have mem: "(t, d) \<in> set items" and dist: "distinct (map fst items)" by auto
    from Cons.prems mem it have ne: "t \<noteq> t'" by force
    have "final_profit (final_profit_step e start st (t', d')) t = final_profit st t"
      using ne by (simp add: final_profit_step_fp split: option.split)
    with Cons.IH [OF dist mem, of "final_profit_step e start st it"] it show ?thesis
      by (simp split: option.split)
  qed
qed

lemma final_profit_loop_entry:
  "distinct (map fst pd) \<Longrightarrow> (t, d) \<in> set pd \<Longrightarrow>
     final_profit (final_profit_loop e start pd) t = snd (ticker_profit e start t d)"
  by (simp add: final_profit_loop_def foldl_step_entry split: option.split)

lemma final_profit_loop_dom: "dom (final_profit (final_profit_loop e start pd)) \<subseteq> fst ` set pd"
proof
  fix t assume *: "t \<in> dom (final_profit (final_profit_loop e start pd))"
  show "t \<in> fst ` set pd"
  proof (rule ccontr)
    assume "t \<notin> fst ` set pd"
    then have "final_profit (final_profit_loop e start pd) t = None"
      by (simp add: final_profit_loop_def foldl_step_other)
    with * show False by auto
  qed
qed

lemma foldl_step_calls:
  "calls (foldl (final_profit_step e start) st items) =
     calls st @ concat (map (\<lambda>(t, d). fst (ticker_profit e start t d)) items)"
proof (induction items arbitrary: st)
  case Nil
  show ?case by simp
next
  case (Cons it items)
  obtain t' d' where it: "it = (t', d')" by (cases it)
  show ?case by (simp add: Cons.IH it final_profit_step_calls)
qed

lemma ticker_profit_calls_ticker:
  "c \<in> set (fst (ticker_profit e start t d)) \<Longrightarrow> call_ticker c = Some t \<and> positions d \<noteq> 0"
  by (auto simp: ticker_profit_def fills_request_def Let_def split: if_splits sum.splits)

lemma sorted_hd_is_Min:
  "sorted xs \<Longrightarrow> xs \<noteq> [] \<Longrightarrow> hd xs = Min (set xs)"
  by (cases xs) (auto intro!: Min_eqI [symmetric])

lemma hd_sort_key_Min:
  assumes "xs \<noteq> []"
  shows "f (hd (sort_key f xs)) = Min (f ` set xs)"
proof -
  have ne: "sort_key f xs \<noteq> []"
    using assms by (metis length_sort length_0_conv)
  have "hd (map f (sort_key f xs)) = Min (set (map f (sort_key f xs)))"
    using ne by (intro sorted_hd_is_Min) simp_all
  then show ?thesis using ne by (simp add: hd_map)
qed

lemma sort_key_hd_before:
  "(case sort_key created_time fi of [] \<Rightarrow> False | f # _ \<Rightarrow> created_time f < start) \<longleftrightarrow>
     (fi \<noteq> [] \<and> Min (created_time ` set fi) < start)"
proof (cases "fi = []")
  case True
  then show ?thesis by simp
next
  case False
  then have ne: "sort_key created_time fi \<noteq> []" by (metis length_sort length_0_conv)
  then obtain f fs where eq: "sort_key created_time fi = f # fs" by (cases "sort_key created_time fi") auto
  from hd_sort_key_Min [OF False, of created_time] eq
  have "created_time f = Min (created_time ` set fi)" by simp
  with False eq show ?thesis by simp
qed

lemma ticker_profit_None_iff:
  "positions d \<noteq> 0 \<Longrightarrow>
     snd (ticker_profit e start t d) = None \<longleftrightarrow>
       call_raised e t \<or> fills_before_start e start t \<or> not_settled e t"
  by (auto simp: ticker_profit_def call_raised_def fills_before_start_def not_settled_def
        settle_def Let_def sort_key_hd_before split: sum.splits)

lemma ticker_profit_zero:
  "positions d = 0 \<Longrightarrow> ticker_profit e start t d = ([], Some (made d - spent d))"
  by (simp add: ticker_profit_def)

lemma settle_wins:
  "r = MarketResult_YES \<or> r = MarketResult_NO \<Longrightarrow>
     settle r d p = Some (if wins r d then p + abs (positions d) * 100 else p)"
  by (auto simp: settle_def wins_def)

lemma foldl_step_fp_cong:
  "final_profit st = final_profit st' \<Longrightarrow>
     final_profit (foldl (final_profit_step e start) st items) =
     final_profit (foldl (final_profit_step e start) st' items)"
proof (induction items arbitrary: st st')
  case Nil
  then show ?case by simp
next
  case (Cons it items)
  obtain t d where it: "it = (t, d)" by (cases it)
  have "final_profit (final_profit_step e start st (t, d)) =
        final_profit (final_profit_step e start st' (t, d))"
    using Cons.prems by (simp add: final_profit_step_fp split: option.split)
  from Cons.IH [OF this] show ?case by (simp add: it)
qed

lemma ticker_profit_raised:
  "positions d \<noteq> 0 \<Longrightarrow>
     (\<exists>ex. get_market e t = Inl ex) \<or> (\<exists>ex. get_fills e (fills_request t) = Inl ex) \<Longrightarrow>
     snd (ticker_profit e start t d) = None"
  by (auto simp: ticker_profit_def split: sum.splits)

lemma loop_calls_ticker:
  assumes "c \<in> set (calls (final_profit_loop e start pd))"
  shows "\<exists>t d. (t, d) \<in> set pd \<and> positions d \<noteq> 0 \<and> call_ticker c = Some t"
proof -
  from assms obtain t d where mem: "(t, d) \<in> set pd"
      and c: "c \<in> set (fst (ticker_profit e start t d))"
    by (auto simp: final_profit_loop_def foldl_step_calls)
  from ticker_profit_calls_ticker [OF c] mem show ?thesis by blast
qed

lemma loop_zero_position:
  assumes "distinct (map fst pd)" and "(t, d) \<in> set pd" and "positions d = 0"
  shows "final_profit (final_profit_loop e start pd) t = Some (made d - spent d) \<and>
         (\<forall>c \<in> set (calls (final_profit_loop e start pd)). call_ticker c \<noteq> Some t)"
proof -
  have entry: "final_profit (final_profit_loop e start pd) t = Some (made d - spent d)"
    using final_profit_loop_entry [OF assms(1,2), of e start] assms(3)
    by (simp add: ticker_profit_zero)
  have nocall: "\<forall>c \<in> set (calls (final_profit_loop e start pd)). call_ticker c \<noteq> Some t"
  proof (intro ballI notI)
    fix c assume c: "c \<in> set (calls (final_profit_loop e start pd))" and ct: "call_ticker c = Some t"
    from loop_calls_ticker [OF c] ct obtain d' where mem': "(t, d') \<in> set pd"
      and nz: "positions d' \<noteq> 0" by auto
    from assms(1,2) mem' have "d' = d" by (meson eq_key_imp_eq_value)
    with nz assms(3) show False by simp
  qed
  from entry nocall show ?thesis by blast
qed

section \<open>Properties of the plotter, the loader and the policies\<close>










lemma split_no_sep: "sep \<notin> set s \<Longrightarrow> split sep s = [s]"
  by (induction s) auto

lemma split_at_sep:
  "sep \<notin> set a \<Longrightarrow> split sep (a @ sep # b) = a # split sep b"
  by (induction a) auto

lemma load_line_other:
  "\<not> startswith line ''export'' \<Longrightarrow> load_line env line = Inr env"
  by (simp add: load_line_def)

lemma load_line_parts:
  assumes "startswith line ''export''"
    and "split CHR '' '' line = a # tok # more_toks"
    and "split CHR ''='' tok = var # v # more_parts"
    and "var \<noteq> []" "CHR ''='' \<notin> set var" "CHR 0x00 \<notin> set var"
      "CHR 0x00 \<notin> set (butlast (tl v))"
  shows "load_line env line = Inr (env(var \<mapsto> butlast (tl v)))"
  using assms
  by (simp add: load_line_def index_def Let_def environ_setitem_def slice_1_to_last_def)

lemma load_line_wellformed:
  assumes "CHR '' '' \<notin> set var" "CHR ''='' \<notin> set var" "CHR '' '' \<notin> set v" "CHR ''='' \<notin> set v"
    and "var \<noteq> []" "CHR 0x00 \<notin> set var" "CHR 0x00 \<notin> set v"
  shows "load_line env (''export '' @ var @ ''='' @ v) = Inr (env(var \<mapsto> butlast (tl v)))"
proof -
  have sp: "CHR '' '' \<notin> set (var @ ''='' @ v)" using assms by auto
  have "split CHR '' '' (''export '' @ var @ ''='' @ v) = ''export'' # split CHR '' '' (var @ ''='' @ v)"
    using split_at_sep [of "CHR '' ''" "''export''" "var @ ''='' @ v"] by simp
  then have s1: "split CHR '' '' (''export '' @ var @ ''='' @ v) = ''export'' # (var @ ''='' @ v) # []"
    using split_no_sep [OF sp] by simp
  have s2: "split CHR ''='' (var @ ''='' @ v) = var # v # []"
    using split_at_sep [of "CHR ''=''" var v] split_no_sep [of "CHR ''=''" v] assms by simp
  have st: "startswith (''export '' @ var @ ''='' @ v) ''export''"
    by (simp add: startswith_def)
  have nz: "CHR 0x00 \<notin> set (butlast (tl v))"
    using assms(7) by (cases v) (auto dest: in_set_butlastD)
  show ?thesis
    by (rule load_line_parts [OF st s1 s2 assms(5) assms(2) assms(6) nz])
qed

lemma one_separator:
  assumes "length (filter (\<lambda>c. c = sep) rest) = 1"
  shows "\<exists>a b. rest = a @ sep # b \<and> sep \<notin> set a \<and> sep \<notin> set b"
proof -
  let ?a = "takeWhile (\<lambda>c. c \<noteq> sep) rest" and ?r = "dropWhile (\<lambda>c. c \<noteq> sep) rest"
  have na: "sep \<notin> set ?a" by (auto dest: set_takeWhileD)
  have fa: "filter (\<lambda>c. c = sep) ?a = []"
    using na by (auto simp: filter_empty_conv)
  have eq: "rest = ?a @ ?r" by simp
  have one: "length (filter (\<lambda>c. c = sep) ?r) = 1"
    using assms fa by (metis eq filter_append append_Nil)
  then have "?r \<noteq> []" by (metis filter.simps(1) list.size(3) zero_neq_one)
  then have "hd ?r = sep" using hd_dropWhile [of "\<lambda>c. c \<noteq> sep" rest] by simp
  with \<open>?r \<noteq> []\<close> obtain b where r: "?r = sep # b"
    by (cases ?r) simp_all
  have "length (filter (\<lambda>c. c = sep) (sep # b)) = 1"
    using one r by simp
  then have nb: "sep \<notin> set b" by (auto simp: filter_empty_conv)
  from eq r na nb show ?thesis by metis
qed

lemma plain_export_lineD:
  assumes "plain_export_line line"
  shows "\<exists>var v. line = ''export '' @ var @ ''='' @ v \<and> var \<noteq> [] \<and>
           CHR '' '' \<notin> set var \<and> CHR ''='' \<notin> set var \<and> CHR 0x00 \<notin> set var \<and>
           CHR '' '' \<notin> set v \<and> CHR ''='' \<notin> set v \<and> CHR 0x00 \<notin> set v"
proof -
  let ?rest = "drop (length ''export '') line"
  from assms have pre: "take (length ''export '') line = ''export ''"
    and sp: "CHR '' '' \<notin> set ?rest" and nul: "CHR 0x00 \<notin> set ?rest"
    and one: "length (filter (\<lambda>c. c = CHR ''='') ?rest) = 1" and first: "take 1 ?rest \<noteq> ''=''"
    by (simp_all add: plain_export_line_def startswith_def Let_def)
  from one_separator [OF one] obtain a b where ab: "?rest = a @ CHR ''='' # b"
    and na: "CHR ''='' \<notin> set a" and nb: "CHR ''='' \<notin> set b" by blast
  have line: "line = ''export '' @ a @ ''='' @ b"
    using pre ab by (metis append_take_drop_id append_Cons append_Nil)
  have ne: "a \<noteq> []" using first ab by auto
  from sp nul ab have "CHR '' '' \<notin> set a" "CHR '' '' \<notin> set b" "CHR 0x00 \<notin> set a" "CHR 0x00 \<notin> set b"
    by auto
  with line ne na nb show ?thesis by blast
qed

lemma described_line_wellformed:
  assumes "CHR ''='' \<notin> set var"
  shows "described_line env (''export '' @ var @ ''='' @ v) = env(var \<mapsto> butlast (tl v))"
proof -
  have l: "left_of_equals (''export '' @ var @ ''='' @ v) = var"
    using assms by (simp add: left_of_equals_def takeWhile_append)
  have "dropWhile (\<lambda>c. c \<noteq> CHR ''='') (''export '' @ var @ ''='' @ v) = ''='' @ v"
    using assms by (simp add: dropWhile_append)
  then have r: "right_of_equals (''export '' @ var @ ''='' @ v) = v"
    by (simp add: right_of_equals_def)
  show ?thesis
    unfolding described_line_def l r by (simp add: startswith_def)
qed

lemma load_line_plain:
  assumes "startswith line ''export'' \<longrightarrow> plain_export_line line"
  shows "load_line env line = Inr (described_line env line)"
proof (cases "startswith line ''export''")
  case False
  then show ?thesis by (simp add: load_line_other described_line_def)
next
  case True
  with assms have "plain_export_line line" by simp
  from plain_export_lineD [OF this] obtain var v where
    line: "line = ''export '' @ var @ ''='' @ v" and ne: "var \<noteq> []"
    and var: "CHR '' '' \<notin> set var" "CHR ''='' \<notin> set var" "CHR 0x00 \<notin> set var"
    and v: "CHR '' '' \<notin> set v" "CHR ''='' \<notin> set v" "CHR 0x00 \<notin> set v" by blast
  have "load_line env line = Inr (env(var \<mapsto> butlast (tl v)))"
    unfolding line by (rule load_line_wellformed [OF var(1,2) v(1,2) ne var(3) v(3)])
  moreover have "described_line env line = env(var \<mapsto> butlast (tl v))"
    unfolding line by (rule described_line_wellformed [OF var(2)])
  ultimately show ?thesis by simp
qed

lemma star_matches_all: "resource_matches ''*'' r"
  by (induction r) auto

lemma literal_then_star:
  "no_wildcard lit \<Longrightarrow> resource_matches (lit @ ''*'') r \<longleftrightarrow> prefix lit r"
proof (induction lit arbitrary: r)
  case Nil
  show ?case using star_matches_all by simp
next
  case (Cons c lit)
  then have nw: "no_wildcard lit" and c: "c \<noteq> CHR ''*''" "c \<noteq> CHR ''?''"
    by (auto simp: no_wildcard_def)
  show ?case
    using c Cons.IH [OF nw] by (cases r) auto
qed

section \<open>Properties of the cleaning cell\<close>










section \<open>The claims\<close>

text \<open>
  C1. In the final-profit loop, for a ticker with nonzero net positions whose
  \<open>get_market\<close> or \<open>get_fills\<close> call raises, the exception is caught: the loop body
  leaves through \<open>continue\<close>, the step changes no entry of \<open>final_profit\<close>, the ticker
  has no entry in the result, and the loop goes on with the remaining tickers, ending
  with the same \<open>final_profit\<close> as a run without this ticker.
\<close>

theorem exchange_error_skips_ticker:
  assumes "distinct (map fst pd)" and "pd = pre @ (t, d) # post" and "positions d \<noteq> 0"
    and "(\<exists>ex. get_market e t = Inl ex) \<or> (\<exists>ex. get_fills e (fills_request t) = Inl ex)"
  shows "snd (ticker_profit e start t d) = None \<and>
         final_profit (final_profit_step e start st (t, d)) = final_profit st \<and>
         t \<notin> dom (final_profit (final_profit_loop e start pd)) \<and>
         final_profit (final_profit_loop e start pd) =
           final_profit (final_profit_loop e start (pre @ post))"
proof -
  have none: "snd (ticker_profit e start t d) = None"
    using assms(3,4) by (rule ticker_profit_raised)
  have same: "\<And>s. final_profit (final_profit_step e start s (t, d)) = final_profit s"
    by (simp add: final_profit_step_fp none)
  have mem: "(t, d) \<in> set pd" using assms(2) by simp
  have "final_profit (final_profit_loop e start pd) t = None"
    using final_profit_loop_entry [OF assms(1) mem, of e start] none by simp
  then have out: "t \<notin> dom (final_profit (final_profit_loop e start pd))" by auto
  have cont: "final_profit (final_profit_loop e start pd) =
           final_profit (final_profit_loop e start (pre @ post))"
    unfolding final_profit_loop_def assms(2)
    by (simp add: foldl_step_fp_cong [OF same])
  from none same out cont show ?thesis by blast
qed

theorem exchange_error_skips_ticker_witness:
  "''B'' \<notin> dom (final_profit (final_profit_loop ex1 0 pd1)) \<and>
   final_profit (final_profit_loop ex1 0 pd1) =
     final_profit (final_profit_loop ex1 0
       [(''A'', \<lparr>positions = 2, spent = 90, made = 0\<rparr>),
        (''C'', \<lparr>positions = 0, spent = 50, made = 100\<rparr>),
        (''D'', \<lparr>positions = 1, spent = 10, made = 0\<rparr>),
        (''E'', \<lparr>positions = 4, spent = 20, made = 0\<rparr>)]) \<and>
   final_profit (final_profit_loop ex1 0 pd1) ''A'' = Some 110 \<and>
   final_profit (final_profit_loop ex1 0 pd1) ''C'' = Some 50"
  using exchange_error_skips_ticker [of pd1 "[(''A'', \<lparr>positions = 2, spent = 90, made = 0\<rparr>)]"
      "''B''" "\<lparr>positions = - 3, spent = 120, made = 100\<rparr>"
      "[(''C'', \<lparr>positions = 0, spent = 50, made = 100\<rparr>),
        (''D'', \<lparr>positions = 1, spent = 10, made = 0\<rparr>),
        (''E'', \<lparr>positions = 4, spent = 20, made = 0\<rparr>)]" ex1 0]
  by (simp add: pd1_def ex1_def final_profit_loop_def final_profit_step_def ticker_profit_def
        settle_def fills_request_def)

text \<open>
  C2. For every ticker whose net positions are exactly zero after all fills are
  processed, the entry of \<open>final_profit\<close> is \<open>made - spent\<close>, and the loop makes no
  exchange call (\<open>get_market\<close>, \<open>get_fills\<close>) for that ticker.
\<close>

theorem zero_position_profit:
  assumes "(t, d) \<in> set (process_fills (sorted_fills fills))" and "positions d = 0"
  shows "final_profit (final_profit_loop e start (process_fills (sorted_fills fills))) t
           = Some (made d - spent d) \<and>
         (\<forall>c \<in> set (calls (final_profit_loop e start (process_fills (sorted_fills fills)))).
            call_ticker c \<noteq> Some t)"
  using loop_zero_position [OF distinct_process_fills assms] .

theorem zero_position_profit_witness:
  "final_profit (final_profit_loop ex1 0 (process_fills (sorted_fills fills1))) ''A'' = Some 60 \<and>
   calls (final_profit_loop ex1 0 (process_fills (sorted_fills fills1))) =
     [Call_get_market ''B'']"
proof -
  have pd: "process_fills (sorted_fills fills1) =
     [(''A'', \<lparr>positions = 0, spent = 140, made = 200\<rparr>),
      (''B'', \<lparr>positions = - 1, spent = 45, made = 0\<rparr>)]"
    by (simp add: fills1_def sorted_fills_def process_fills_def fill_step_def apply_fill_def
        buys_yes_def pd_get_def ProfitData_default_def Let_def)
  show ?thesis
    using zero_position_profit [of "''A''" "\<lparr>positions = 0, spent = 140, made = 200\<rparr>" fills1 ex1 0]
    by (simp add: pd ex1_def final_profit_loop_def final_profit_step_def ticker_profit_def)
qed

text \<open>
  C3. \<open>ProfitData\<close> has exactly the three integer fields \<open>positions\<close>, \<open>spent\<close> and
  \<open>made\<close> (a record is determined by the three), its defaults are 0, and for a ticker
  seen for the first time in the fills loop all three fields start at 0: the read
  \<open>pd[ticker]\<close> yields the zero record and the first fill is applied to it.
\<close>

theorem ProfitData_starts_at_zero:
  "(\<forall>p :: ProfitData. p = \<lparr>positions = positions p, spent = spent p, made = made p\<rparr>) \<and>
   ProfitData_default = \<lparr>positions = 0, spent = 0, made = 0\<rparr> \<and>
   (ticker fill \<notin> fst ` set pd \<longrightarrow>
      pd_get pd (ticker fill) = \<lparr>positions = 0, spent = 0, made = 0\<rparr> \<and>
      pd_get (fill_step pd fill) (ticker fill) =
        apply_fill \<lparr>positions = 0, spent = 0, made = 0\<rparr> fill)"
proof -
  have first: "pd_get pd (ticker fill) = \<lparr>positions = 0, spent = 0, made = 0\<rparr>"
    if "ticker fill \<notin> fst ` set pd"
  proof -
    from that have "map_of pd (ticker fill) = None" by (simp add: map_of_eq_None_iff)
    then show ?thesis by (simp add: pd_get_def ProfitData_default_def)
  qed
  then show ?thesis
    by (simp add: ProfitData_default_def pd_get_fill_step)
qed

theorem ProfitData_starts_at_zero_witness:
  "pd_get [] ''A'' = \<lparr>positions = 0, spent = 0, made = 0\<rparr> \<and>
   pd_get (fill_step [] (hd fills1)) ''A'' = \<lparr>positions = - 2, spent = 80, made = 0\<rparr>"
  using ProfitData_starts_at_zero [of "hd fills1" "[]"]
  by (simp add: fills1_def apply_fill_def buys_yes_def Let_def)

text \<open>
  C8. Invariant of the fills loop: if every fill has non-negative \<open>yes_price\<close>,
  \<open>no_price\<close> and \<open>count\<close>, then after any prefix of the sorted fills the accumulated
  \<open>spent\<close> and \<open>made\<close> of every ticker are non-negative, and the next fill decreases
  neither: it adds price times count to \<open>spent\<close> of its ticker, and adds to \<open>made\<close> only
  when it offsets a position of the opposite sign, then exactly
  \<open>min(count, |positions|) * 100\<close>.
\<close>

theorem fills_loop_invariant:
  assumes "\<forall>f \<in> set fills. nonneg_fill f"
  shows "0 \<le> spent (pd_get (process_fills (take n (sorted_fills fills))) t) \<and>
         0 \<le> made (pd_get (process_fills (take n (sorted_fills fills))) t) \<and>
         (n < length (sorted_fills fills) \<longrightarrow>
            (let pd = process_fills (take n (sorted_fills fills));
                 f = sorted_fills fills ! n;
                 pd' = process_fills (take (Suc n) (sorted_fills fills))
             in pd' = fill_step pd f \<and>
                spent (pd_get pd' t) =
                  spent (pd_get pd t) + (if t = ticker f then fill_cost f else 0) \<and>
                made (pd_get pd' t) =
                  made (pd_get pd t) +
                  (if t = ticker f \<and> offsets (pd_get pd t) f
                   then min (count f) (abs (positions (pd_get pd t))) * 100 else 0) \<and>
                spent (pd_get pd t) \<le> spent (pd_get pd' t) \<and>
                made (pd_get pd t) \<le> made (pd_get pd' t)))"
proof -
  let ?fs = "sorted_fills fills"
  have all: "\<forall>f \<in> set ?fs. nonneg_fill f"
    using assms by (simp add: sorted_fills_def)
  then have pre: "\<forall>f \<in> set (take n ?fs). nonneg_fill f"
    by (meson in_set_takeD)
  have inv: "0 \<le> spent (pd_get (process_fills (take n ?fs)) t) \<and>
             0 \<le> made (pd_get (process_fills (take n ?fs)) t)"
    using pre by (rule process_fills_nonneg)
  have step: "let pd = process_fills (take n ?fs); f = ?fs ! n;
                  pd' = process_fills (take (Suc n) ?fs)
             in pd' = fill_step pd f \<and>
                spent (pd_get pd' t) =
                  spent (pd_get pd t) + (if t = ticker f then fill_cost f else 0) \<and>
                made (pd_get pd' t) =
                  made (pd_get pd t) +
                  (if t = ticker f \<and> offsets (pd_get pd t) f
                   then min (count f) (abs (positions (pd_get pd t))) * 100 else 0) \<and>
                spent (pd_get pd t) \<le> spent (pd_get pd' t) \<and>
                made (pd_get pd t) \<le> made (pd_get pd' t)"
    if lt: "n < length ?fs"
  proof -
    from lt all have "nonneg_fill (?fs ! n)" by simp
    then have c: "0 \<le> fill_cost (?fs ! n)" and k: "0 \<le> count (?fs ! n)"
      by (simp_all add: fill_cost_nonneg nonneg_fill_def)
    show ?thesis
      using c k lt
      by (auto simp: Let_def take_Suc_sorted pd_get_fill_step spent_apply_fill made_apply_fill)
  qed
  from inv step show ?thesis by blast
qed

theorem fills_loop_invariant_witness:
  "sorted_fills fills1 ! 2 = hd fills1 \<and>
   spent (pd_get (process_fills (take 2 (sorted_fills fills1))) ''A'') = 60 \<and>
   made (pd_get (process_fills (take 2 (sorted_fills fills1))) ''A'') = 0 \<and>
   spent (pd_get (process_fills (take 3 (sorted_fills fills1))) ''A'') = 140 \<and>
   made (pd_get (process_fills (take 3 (sorted_fills fills1))) ''A'') = 200"
  using fills_loop_invariant [of fills1 2 "''A''"]
  by (simp add: fills1_def nonneg_fill_def sorted_fills_def process_fills_def fill_step_def
        apply_fill_def buys_yes_def pd_get_def ProfitData_default_def Let_def)

text \<open>
  C9. For a ticker with nonzero net positions whose market has settled (result YES or
  NO), the settlement branch adds the credit \<open>|positions| * 100\<close> to the profit exactly
  when the result matches the direction of the position (NO with negative positions,
  YES with positive positions), and nothing on the losing side. When both exchange calls
  return and no fill of the ticker lies before the start, the entry of \<open>final_profit\<close> is
  \<open>made - spent\<close> plus that credit.
\<close>

theorem settlement_credit:
  "(positions d \<noteq> 0 \<and> (r = MarketResult_YES \<or> r = MarketResult_NO) \<longrightarrow>
      settle r d profit = Some (if wins r d then profit + abs (positions d) * 100 else profit)) \<and>
   (distinct (map fst pd) \<and> (t, d) \<in> set pd \<and> positions d \<noteq> 0 \<and>
    get_market e t = Inr m \<and> (result m = MarketResult_YES \<or> result m = MarketResult_NO) \<and>
    get_fills e (fills_request t) = Inr fi \<and> \<not> (fi \<noteq> [] \<and> Min (created_time ` set fi) < start) \<longrightarrow>
      final_profit (final_profit_loop e start pd) t =
        Some (made d - spent d + (if wins (result m) d then abs (positions d) * 100 else 0)))"
proof (intro conjI impI)
  assume "positions d \<noteq> 0 \<and> (r = MarketResult_YES \<or> r = MarketResult_NO)"
  then show "settle r d profit = Some (if wins r d then profit + abs (positions d) * 100 else profit)"
    by (simp add: settle_wins)
next
  assume a: "distinct (map fst pd) \<and> (t, d) \<in> set pd \<and> positions d \<noteq> 0 \<and>
    get_market e t = Inr m \<and> (result m = MarketResult_YES \<or> result m = MarketResult_NO) \<and>
    get_fills e (fills_request t) = Inr fi \<and> \<not> (fi \<noteq> [] \<and> Min (created_time ` set fi) < start)"
  then have hd: "\<not> (case sort_key created_time fi of [] \<Rightarrow> False | f # _ \<Rightarrow> created_time f < start)"
    by (simp only: sort_key_hd_before not_False_eq_True)
  have "snd (ticker_profit e start t d) = settle (result m) d (made d - spent d)"
    using a hd by (simp add: ticker_profit_def Let_def)
  also have "\<dots> = Some (if wins (result m) d then made d - spent d + abs (positions d) * 100
                        else made d - spent d)"
    using a by (simp add: settle_wins)
  finally have "snd (ticker_profit e start t d) =
      Some (made d - spent d + (if wins (result m) d then abs (positions d) * 100 else 0))"
    by simp
  moreover from a have "final_profit (final_profit_loop e start pd) t = snd (ticker_profit e start t d)"
    by (intro final_profit_loop_entry) simp_all
  ultimately show "final_profit (final_profit_loop e start pd) t =
        Some (made d - spent d + (if wins (result m) d then abs (positions d) * 100 else 0))"
    by (simp only:)
qed

theorem settlement_credit_witness:
  "settle MarketResult_NO \<lparr>positions = - 3, spent = 120, made = 100\<rparr> (- 20) = Some 280 \<and>
   settle MarketResult_YES \<lparr>positions = - 3, spent = 120, made = 100\<rparr> (- 20) = Some (- 20) \<and>
   final_profit (final_profit_loop ex1 0 pd1) ''A'' = Some 110"
  using settlement_credit [of "\<lparr>positions = - 3, spent = 120, made = 100\<rparr>" MarketResult_NO "- 20"
          "[]" "''x''" ex1 "\<lparr>market_ticker = ''x'', result = MarketResult_YES\<rparr>" "[]" 0]
        settlement_credit [of "\<lparr>positions = - 3, spent = 120, made = 100\<rparr>" MarketResult_YES "- 20"
          "[]" "''x''" ex1 "\<lparr>market_ticker = ''x'', result = MarketResult_YES\<rparr>" "[]" 0]
        settlement_credit [of "\<lparr>positions = 2, spent = 90, made = 0\<rparr>" MarketResult_YES 0
          pd1 "''A''" ex1 "\<lparr>market_ticker = ''A'', result = MarketResult_YES\<rparr>" "[]" 0]
  by (simp add: wins_def pd1_def ex1_def fills_request_def)

text \<open>
  C10. A ticker of \<open>pd\<close> with nonzero net positions is omitted from \<open>final_profit\<close>
  exactly when an exchange call for it raised, or its earliest fill by \<open>created_time\<close>
  precedes the start time, or the result of its market is neither YES nor NO; every
  other ticker, and every ticker with zero net positions, receives an entry.
\<close>

theorem omitted_exactly:
  assumes "distinct (map fst pd)" and "(t, d) \<in> set pd"
  shows "(positions d \<noteq> 0 \<longrightarrow>
           (t \<notin> dom (final_profit (final_profit_loop e start pd)) \<longleftrightarrow>
              call_raised e t \<or> fills_before_start e start t \<or> not_settled e t)) \<and>
         (positions d = 0 \<longrightarrow> t \<in> dom (final_profit (final_profit_loop e start pd)))"
proof -
  have eq: "final_profit (final_profit_loop e start pd) t = snd (ticker_profit e start t d)"
    using assms by (rule final_profit_loop_entry)
  have nz: "positions d \<noteq> 0 \<longrightarrow>
           (t \<notin> dom (final_profit (final_profit_loop e start pd)) \<longleftrightarrow>
              call_raised e t \<or> fills_before_start e start t \<or> not_settled e t)"
    using ticker_profit_None_iff [of d e start t] eq by (simp add: domIff)
  have z: "positions d = 0 \<longrightarrow> t \<in> dom (final_profit (final_profit_loop e start pd))"
    using eq by (simp add: ticker_profit_zero domIff)
  from nz z show ?thesis by blast
qed

theorem omitted_exactly_witness:
  "call_raised ex1 ''B'' \<and> ''B'' \<notin> dom (final_profit (final_profit_loop ex1 0 pd1)) \<and>
   fills_before_start ex1 0 ''D'' \<and> ''D'' \<notin> dom (final_profit (final_profit_loop ex1 0 pd1)) \<and>
   not_settled ex1 ''E'' \<and> ''E'' \<notin> dom (final_profit (final_profit_loop ex1 0 pd1)) \<and>
   ''A'' \<in> dom (final_profit (final_profit_loop ex1 0 pd1)) \<and>
   ''C'' \<in> dom (final_profit (final_profit_loop ex1 0 pd1))"
proof -
  have d: "distinct (map fst pd1)" by (simp add: pd1_def)
  have raised: "call_raised ex1 ''B''" by (simp add: call_raised_def ex1_def)
  have before: "fills_before_start ex1 0 ''D''"
    by (simp add: fills_before_start_def ex1_def fills_request_def)
  have unsettled: "not_settled ex1 ''E''" by (simp add: not_settled_def ex1_def)
  have okA: "\<not> (call_raised ex1 ''A'' \<or> fills_before_start ex1 0 ''A'' \<or> not_settled ex1 ''A'')"
    by (simp add: call_raised_def fills_before_start_def not_settled_def ex1_def fills_request_def)
  from omitted_exactly [OF d, of "''B''" "\<lparr>positions = - 3, spent = 120, made = 100\<rparr>" ex1 0] raised
  have b: "''B'' \<notin> dom (final_profit (final_profit_loop ex1 0 pd1))" by (simp add: pd1_def)
  from omitted_exactly [OF d, of "''D''" "\<lparr>positions = 1, spent = 10, made = 0\<rparr>" ex1 0] before
  have dd: "''D'' \<notin> dom (final_profit (final_profit_loop ex1 0 pd1))" by (simp add: pd1_def)
  from omitted_exactly [OF d, of "''E''" "\<lparr>positions = 4, spent = 20, made = 0\<rparr>" ex1 0] unsettled
  have ee: "''E'' \<notin> dom (final_profit (final_profit_loop ex1 0 pd1))" by (simp add: pd1_def)
  from omitted_exactly [OF d, of "''A''" "\<lparr>positions = 2, spent = 90, made = 0\<rparr>" ex1 0] okA
  have aa: "''A'' \<in> dom (final_profit (final_profit_loop ex1 0 pd1))" by (simp add: pd1_def)
  from omitted_exactly [OF d, of "''C''" "\<lparr>positions = 0, spent = 50, made = 100\<rparr>" ex1 0]
  have cc: "''C'' \<in> dom (final_profit (final_profit_loop ex1 0 pd1))" by (simp add: pd1_def)
  from raised b before dd unsettled ee aa cc show ?thesis by blast
qed







text \<open>
  C6, as amended. When every line of the credentials file that starts with \<open>export\<close>
  has the form \<open>export NAME=VALUE\<close> (one space, a nonempty name, one \<open>=\<close>, no further
  space), \<open>load_env_vars_from_file\<close> returns, and it has set, line by line, the variable
  named left of \<open>=\<close> to the text right of \<open>=\<close> without its first and last character;
  lines that do not start with \<open>export\<close> change no variable.
\<close>

theorem load_env_vars_plain_lines:
  assumes "\<forall>line \<in> set lines. startswith line ''export'' \<longrightarrow> plain_export_line line"
  shows "load_env_vars_from_file env lines = Inr (foldl described_line env lines)"
  using assms
proof (induction lines arbitrary: env)
  case Nil
  show ?case by simp
next
  case (Cons line lines)
  then have "load_line env line = Inr (described_line env line)"
    by (intro load_line_plain) simp
  with Cons show ?case by simp
qed

theorem load_env_vars_plain_lines_witness:
  "load_env_vars_from_file Map.empty readme_lines =
     Inr [''API_URL'' \<mapsto> ''https://demo-api.kalshi.co/trade-api'', ''API_VERSION'' \<mapsto> ''v2'',
          ''API_USERNAME'' \<mapsto> ''your-email@email.com'', ''API_PASSWORD'' \<mapsto> ''some-password'']"
  using load_env_vars_plain_lines [of readme_lines Map.empty]
  by (simp add: readme_lines_def plain_export_line_def startswith_def described_line_def
        left_of_equals_def right_of_equals_def)

text \<open>
  C6 as stated, for every line that starts with \<open>export\<close>, fails: with a space in the
  value the variable is set to another text than the description says, and a line
  without a second word raises \<open>IndexError\<close>, which ends the load.
\<close>

theorem load_env_vars_counterexample:
  "startswith ''export A=(x y)'' ''export'' \<and>
   load_env_vars_from_file Map.empty [''export A=(x y)''] = Inr [''A'' \<mapsto> []] \<and>
   foldl described_line Map.empty [''export A=(x y)''] = [''A'' \<mapsto> ''x y''] \<and>
   load_env_vars_from_file Map.empty [''export A=(x y)''] \<noteq>
     Inr (foldl described_line Map.empty [''export A=(x y)'']) \<and>
   load_env_vars_from_file Map.empty [''export'', ''export B=(z)''] = Inl IndexError"
  by (auto simp: load_line_def startswith_def index_def environ_setitem_def slice_1_to_last_def
        described_line_def left_of_equals_def right_of_equals_def dest!: map_upd_eqD1)

text \<open>
  C7. The Terraform configuration declares a read/write policy per source for exactly
  the three sources \<open>cole\<close>, \<open>test\<close> and \<open>databento\<close>. Each policy has one statement: it
  allows \<open>s3:PutObject\<close>, \<open>s3:GetObject\<close>, \<open>s3:ListBucket\<close> and \<open>s3:DeleteObject\<close> on the
  resource \<open><bucket arn>/<source>/*\<close>, which covers the ARNs under the source's own
  prefix and nothing under the prefix of another source.
\<close>

theorem source_policies:
  assumes "no_wildcard arn"
  shows "dom (features_raw_source_rw arn) = {''cole'', ''test'', ''databento''} \<and>
         (\<forall>k p. features_raw_source_rw arn k = Some p \<longrightarrow>
            Statement (policy p) =
              [\<lparr>Action = [''s3:PutObject'', ''s3:GetObject'', ''s3:ListBucket'', ''s3:DeleteObject''],
                Effect = ''Allow'', Resource = arn @ ''/'' @ k @ ''/*''\<rparr>] \<and>
            (\<forall>r. resource_matches (arn @ ''/'' @ k @ ''/*'') r \<longleftrightarrow>
                   prefix (arn @ ''/'' @ k @ ''/'') r) \<and>
            (\<forall>k' obj. k' \<in> {''cole'', ''test'', ''databento''} \<and> k' \<noteq> k \<longrightarrow>
               \<not> resource_matches (arn @ ''/'' @ k @ ''/*'') (arn @ ''/'' @ k' @ ''/'' @ obj)))"
proof -
  have d: "dom (features_raw_source_rw arn) = {''cole'', ''test'', ''databento''}"
    by (auto simp: features_raw_source_rw_def toset_def split: if_splits)
  have m: "resource_matches (arn @ ''/'' @ k @ ''/*'') r \<longleftrightarrow> prefix (arn @ ''/'' @ k @ ''/'') r"
    if "k \<in> {''cole'', ''test'', ''databento''}" for k r
  proof -
    have "no_wildcard (arn @ ''/'' @ k @ ''/'')"
      using assms that by (auto simp: no_wildcard_def)
    from literal_then_star [OF this, of r] show ?thesis by simp
  qed
  have iso: "\<not> resource_matches (arn @ ''/'' @ k @ ''/*'') (arn @ ''/'' @ k' @ ''/'' @ obj)"
    if "k \<in> {''cole'', ''test'', ''databento''}" "k' \<in> {''cole'', ''test'', ''databento''}" "k' \<noteq> k"
    for k k' obj
  proof -
    have "\<not> prefix (k @ ''/'') (k' @ ''/'' @ obj)"
      using that by auto
    then have "\<not> prefix (arn @ ''/'' @ k @ ''/'') (arn @ ''/'' @ k' @ ''/'' @ obj)"
      by simp
    with m [OF that(1)] show ?thesis by simp
  qed
  show ?thesis
    using d m iso
    by (auto simp: features_raw_source_rw_def toset_def split: if_splits)
qed

theorem source_policies_witness:
  "dom (features_raw_source_rw ''arn:aws:s3:::dead-gecco-prod-features-raw'') =
     {''cole'', ''test'', ''databento''} \<and>
   map_option (\<lambda>p. map Resource (Statement (policy p)))
     (features_raw_source_rw ''arn:aws:s3:::dead-gecco-prod-features-raw'' ''cole'') =
     Some [''arn:aws:s3:::dead-gecco-prod-features-raw/cole/*''] \<and>
   \<not> resource_matches ''arn:aws:s3:::dead-gecco-prod-features-raw/cole/*''
       ''arn:aws:s3:::dead-gecco-prod-features-raw/test/2024/x.parquet''"
proof -
  have nw: "no_wildcard ''arn:aws:s3:::dead-gecco-prod-features-raw''"
    by (simp add: no_wildcard_def)
  have p: "features_raw_source_rw ''arn:aws:s3:::dead-gecco-prod-features-raw'' ''cole'' \<noteq> None"
    by (simp add: features_raw_source_rw_def toset_def)
  from source_policies [OF nw] p show ?thesis
    by (auto simp: features_raw_source_rw_def toset_def)
qed

end
